theory Spec2Isabelle
  imports Main "HOL-Library.Word"
begin

section \<open>Keys\<close>

text \<open>
  The session works on keys of the store client, \<^verbatim>\<open>*datastore.Key\<close>: a struct with the fields
  \<^verbatim>\<open>Kind\<close>, \<^verbatim>\<open>ID\<close> (an \<^verbatim>\<open>int64\<close>), \<^verbatim>\<open>Name\<close>, \<^verbatim>\<open>Parent\<close> (a pointer to the next
  ancestor, \<^verbatim>\<open>nil\<close> at the root) and \<^verbatim>\<open>Namespace\<close>. A key is a finite ancestor path, so
  the struct is a datatype and a pointer to a key is a \<open>Key option\<close>, with \<open>None\<close> for
  \<^verbatim>\<open>nil\<close>. Keys are compared and rebuilt by value; the sharing of ancestors between two
  keys plays no role in the functions below.
\<close>

datatype Key =
  Key (Kind: string) (ID: "64 word") (Name: string) (Parent: "Key option") (Namespace: string)

text \<open>A run-time panic: a \<^verbatim>\<open>nil\<close> dereference, an index out of range, a call of a \<^verbatim>\<open>nil\<close> function.\<close>

datatype panic = NilDereference | IndexOutOfRange | NilFuncCall

text \<open>
  \<^verbatim>\<open>SetNS\<close> writes the namespace into the key and then into every ancestor reached through
  \<^verbatim>\<open>Parent\<close>; it returns the key it was given. The first assignment dereferences the
  argument, so a \<^verbatim>\<open>nil\<close> key panics.
\<close>

fun SetNS_chain :: "Key \<Rightarrow> string \<Rightarrow> Key" where
  "SetNS_chain (Key kind i name parent uu) ns =
     Key kind i name (case parent of None \<Rightarrow> None | Some nxt \<Rightarrow> Some (SetNS_chain nxt ns)) ns"

fun SetNS :: "Key option \<Rightarrow> string \<Rightarrow> panic + Key option" where
  "SetNS None ns = Inl NilDereference"
| "SetNS (Some key) ns = Inr (Some (SetNS_chain key ns))"

text \<open>
  \<^verbatim>\<open>cmpKey\<close>: the loop compares one level and then moves both cursors to the parents.
  Inside the loop both cursors are non-nil; only the arguments themselves can be \<^verbatim>\<open>nil\<close>,
  and then the first field access panics.
\<close>

function cmpKey_loop :: "Key \<Rightarrow> Key \<Rightarrow> bool" where
  "cmpKey_loop left right =
     (if Namespace left \<noteq> Namespace right then False
      else if Kind left \<noteq> Kind right then False
      else if ID left \<noteq> ID right then False
      else if Name left \<noteq> Name right then False
      else (case Parent left of
              None \<Rightarrow> Parent right = None
            | Some l \<Rightarrow> (case Parent right of None \<Rightarrow> False | Some r \<Rightarrow> cmpKey_loop l r)))"
  by pat_completeness auto
termination
proof (relation "measure (\<lambda>(left, right). size left)")
  show "wf (measure (\<lambda>(left, right). size left))" by simp
next
  fix left right l r :: Key
  assume "Parent left = Some l"
  then have "size l < size left" by (cases left) simp
  then show "((l, r), (left, right)) \<in> measure (\<lambda>(left, right). size left)" by simp
qed

declare cmpKey_loop.simps [simp del]

fun cmpKey :: "Key option \<Rightarrow> Key option \<Rightarrow> panic + bool" where
  "cmpKey (Some a) (Some b) = Inr (cmpKey_loop a b)"
| "cmpKey a b = Inl NilDereference"

text \<open>
  The words of the specification, to compare \<open>cmpKey\<close> with: the ancestor chain of a key
  from the leaf to the root, and equivalence as "every corresponding level has identical
  namespace, kind, numeric identifier and name, and both chains end at the same depth".
\<close>

fun chain :: "Key \<Rightarrow> Key list" where
  "chain (Key kind i name parent ns) =
     Key kind i name parent ns # (case parent of None \<Rightarrow> [] | Some nxt \<Rightarrow> chain nxt)"

definition same_level :: "Key \<Rightarrow> Key \<Rightarrow> bool" where
  "same_level a b \<longleftrightarrow>
     Namespace a = Namespace b \<and> Kind a = Kind b \<and> ID a = ID b \<and> Name a = Name b"

definition keysEquivalent :: "Key \<Rightarrow> Key \<Rightarrow> bool" where
  "keysEquivalent a b \<longleftrightarrow> list_all2 same_level (chain a) (chain b)"

section \<open>Errors\<close>

text \<open>
  Go's \<^verbatim>\<open>error\<close> values. \<^verbatim>\<open>ErrKeyChanged\<close> and \<^verbatim>\<open>ErrUpdateAbort\<close> are the package's own
  sentinels; \<^verbatim>\<open>ErrNoSuchEntity\<close> and \<^verbatim>\<open>ErrConcurrentTransaction\<close> are the store client's,
  and the package re-exports the first as \<^verbatim>\<open>ErrNotFound\<close>. \<^verbatim>\<open>MultiError\<close> is the client's
  slice of per-entity errors, whose elements may be \<^verbatim>\<open>nil\<close>. \<open>Wrapped\<close> is an error
  that wraps another one (\<^verbatim>\<open>fmt.Errorf("...%w", err)\<close>). A \<^verbatim>\<open>nil\<close> error is \<open>None\<close>.
\<close>

datatype error =
    ErrKeyChanged
  | ErrNoSuchEntity
  | ErrConcurrentTransaction
  | ErrUpdateAbort
  | MultiError "error option list"
  | Wrapped string error
  | OtherError string

abbreviation ErrNotFound :: error where
  "ErrNotFound \<equiv> ErrNoSuchEntity"

text \<open>\<^verbatim>\<open>errors.Is\<close>: the error itself or an error it wraps is the target.\<close>

fun error_Is :: "error \<Rightarrow> error \<Rightarrow> bool" where
  "error_Is (Wrapped msg inner) target = (Wrapped msg inner = target \<or> error_Is inner target)"
| "error_Is err target = (err = target)"

fun errors_Is :: "error option \<Rightarrow> error \<Rightarrow> bool" where
  "errors_Is None target = False"
| "errors_Is (Some err) target = error_Is err target"

section \<open>Entities and the store client\<close>

text \<open>
  The entity type \<^verbatim>\<open>T\<close> is a pointer type, as in the repository's tests: the store and
  the hooks write the entity in place. The model passes the entity's state explicitly,
  and every call that may write the entity returns its new state next to the call's own
  result. (\<^verbatim>\<open>Save\<close>, which the store calls while it encodes a mutation, is taken to
  leave the entity as it is, and the entities of one batch are distinct objects.)

  The method set of \<^verbatim>\<open>T\<close>: \<^verbatim>\<open>BuildKey\<close>, which returns a key pointer and an error, and
  the optional \<^verbatim>\<open>LoadKey\<close> of \<^verbatim>\<open>datastore.KeyLoader\<close>. The type assertion in
  \<^verbatim>\<open>ResolveKey\<close> inspects the dynamic type of each object, so \<open>KeyLoader\<close> answers per
  object: \<open>None\<close> when the object has no such method.
\<close>

record 'o Object =
  BuildKey :: "'o \<Rightarrow> string \<Rightarrow> Key option \<times> error option"
  KeyLoader :: "'o \<Rightarrow> (Key option \<Rightarrow> 'o \<times> error option) option"

text \<open>The mutations the session builds, named after the client's constructors.\<close>

datatype 'o Mutation =
    NewInsert "Key option" 'o
  | NewUpdate "Key option" 'o
  | NewUpsert "Key option" 'o
  | NewDelete "Key option"

text \<open>
  A transaction handle. \<open>issued\<close> is the trace of the mutations handed to the transaction
  so far (through \<^verbatim>\<open>tx.Mutate\<close> or \<^verbatim>\<open>tx.DeleteMulti\<close>), in order; \<open>attempt\<close> numbers the
  attempts of \<^verbatim>\<open>RunInTransaction\<close>.
\<close>

record 'o Transaction =
  attempt :: nat
  issued :: "'o Mutation list"

type_synonym PendingKey = nat

type_synonym Commit = "PendingKey option \<Rightarrow> Key option"

text \<open>
  The store client is outside the repository. Its answers are parameters of the model:
  what a lookup loads and reports, which pending keys and which error a mutation call
  returns, whether a transaction begins and commits. \<open>client_get\<close> is the client's batched
  lookup outside a transaction, which reports the failures of single entities as a
  multi-error. A commit is represented by its \<^verbatim>\<open>Key\<close> method, from pending keys to keys.
\<close>

record 'o datastore_Client =
  client_get :: "Key option list \<Rightarrow> 'o list \<Rightarrow> 'o list \<times> error option"
  tx_Get :: "'o Transaction \<Rightarrow> Key option \<Rightarrow> 'o \<Rightarrow> 'o \<times> error option"
  tx_GetMulti :: "'o Transaction \<Rightarrow> Key option list \<Rightarrow> 'o list \<Rightarrow> 'o list \<times> error option"
  tx_Mutate :: "'o Transaction \<Rightarrow> 'o Mutation list \<Rightarrow> PendingKey option list \<times> error option"
  tx_DeleteMulti :: "'o Transaction \<Rightarrow> Key option list \<Rightarrow> error option"
  newTransaction :: "nat \<Rightarrow> error option"
  tx_Commit :: "'o Transaction \<Rightarrow> error + Commit"
  attempts :: nat

text \<open>
  A batched lookup writes into the entities of the slice it is given; the slice keeps its
  length.
\<close>

definition in_place :: "'o list \<Rightarrow> 'o list \<Rightarrow> 'o list" where
  "in_place objs loaded = take (length objs) loaded @ drop (length loaded) objs"

text \<open>
  Modelled from the spec: the store client's single-key \<^verbatim>\<open>lookup(key)\<close> of section 6
  (\<^verbatim>\<open>Client.Get\<close>), which the repository calls and does not contain. It is the client's
  batched lookup on the one key and the one entity; the caller gets one plain error: a
  multi-error of the batched lookup is replaced by its first element (\<^verbatim>\<open>me[0]\<close>, which
  panics on an empty multi-error).
\<close>

definition client_Get ::
  "'o datastore_Client \<Rightarrow> Key option \<Rightarrow> 'o \<Rightarrow> panic + ('o \<times> error option)" where
  "client_Get c key obj =
     (case client_get c [key] [obj] of
        (loaded, err) \<Rightarrow>
          (let obj' = hd (in_place [obj] loaded)
           in case err of
                Some (MultiError me) \<Rightarrow>
                  (case me of [] \<Rightarrow> Inl IndexOutOfRange | e # es \<Rightarrow> Inr (obj', e))
              | _ \<Rightarrow> Inr (obj', err)))"

text \<open>
  Modelled from the spec: the store client's \<^verbatim>\<open>runInTransaction(fn)\<close> of section 6, which
  the repository calls and does not contain. It begins a transaction, runs the callback
  on it, and commits; an error of the callback rolls back and is returned; a commit that
  reports a concurrent transaction is retried while attempts remain. The callback is a
  closure: \<open>v\<close> holds the variables it captures and assigns. The last component of the
  result lists the mutations that were committed.
\<close>

fun RunInTransaction_from ::
  "'o datastore_Client \<Rightarrow> nat \<Rightarrow> nat
   \<Rightarrow> ('v \<Rightarrow> 'o Transaction \<Rightarrow> panic + ('v \<times> error option \<times> 'o Transaction))
   \<Rightarrow> 'v \<Rightarrow> panic + ('v \<times> (error + Commit) \<times> 'o Mutation list)" where
  "RunInTransaction_from c 0 n f v = Inr (v, Inl ErrConcurrentTransaction, [])"
| "RunInTransaction_from c (Suc left) n f v =
     (case newTransaction c n of
        Some err \<Rightarrow> Inr (v, Inl err, [])
      | None \<Rightarrow>
          (case f v \<lparr>attempt = n, issued = []\<rparr> of
             Inl p \<Rightarrow> Inl p
           | Inr (v', Some err, tx') \<Rightarrow> Inr (v', Inl err, [])
           | Inr (v', None, tx') \<Rightarrow>
               (case tx_Commit c tx' of
                  Inl err \<Rightarrow>
                    if err = ErrConcurrentTransaction
                    then RunInTransaction_from c left (Suc n) f v'
                    else Inr (v', Inl err, [])
                | Inr cmt \<Rightarrow> Inr (v', Inr cmt, issued tx'))))"

definition RunInTransaction ::
  "'o datastore_Client
   \<Rightarrow> ('v \<Rightarrow> 'o Transaction \<Rightarrow> panic + ('v \<times> error option \<times> 'o Transaction))
   \<Rightarrow> 'v \<Rightarrow> panic + ('v \<times> (error + Commit) \<times> 'o Mutation list)" where
  "RunInTransaction c f v = RunInTransaction_from c (attempts c) 0 f v"

text \<open>
  Modelled from the spec: the store's contract for a mutation (section 6: "insert" fails
  if the key exists, "update" fails if it does not), given which keys exist when the
  mutation is applied. The store is outside the repository.
\<close>

fun mutation_fails :: "(Key option \<Rightarrow> bool) \<Rightarrow> 'o Mutation \<Rightarrow> bool" where
  "mutation_fails exists (NewInsert key obj) = exists key"
| "mutation_fails exists (NewUpdate key obj) = (\<not> exists key)"
| "mutation_fails exists (NewUpsert key obj) = False"
| "mutation_fails exists (NewDelete key) = False"

section \<open>The entity session\<close>

record 'o DSEnt =
  Client :: "'o datastore_Client"
  namespace :: string
  kind :: string

text \<open>\<^verbatim>\<open>buildKeys\<close>: one key per object, in order; the first error ends the loop.\<close>

fun buildKeys_loop :: "'o Object \<Rightarrow> string \<Rightarrow> 'o list \<Rightarrow> Key option list \<times> error option" where
  "buildKeys_loop T ns [] = ([], None)"
| "buildKeys_loop T ns (obj # objs) =
     (case BuildKey T obj ns of
        (key, Some err) \<Rightarrow> ([], Some err)
      | (key, None) \<Rightarrow>
          (case buildKeys_loop T ns objs of
             (keys, Some err) \<Rightarrow> ([], Some err)
           | (keys, None) \<Rightarrow> (key # keys, None)))"

definition buildKeys :: "'o Object \<Rightarrow> 'o DSEnt \<Rightarrow> 'o list \<Rightarrow> Key option list \<times> error option" where
  "buildKeys T db objs = buildKeys_loop T (namespace db) objs"

definition ResolveKey :: "'o Object \<Rightarrow> 'o DSEnt \<Rightarrow> Key option \<Rightarrow> 'o \<Rightarrow> 'o \<times> error option" where
  "ResolveKey T db key obj =
     (case KeyLoader T obj of
        None \<Rightarrow> (obj, None)
      | Some LoadKey \<Rightarrow>
          (case LoadKey key of
             (obj', Some err) \<Rightarrow> (obj', Some err)
           | (obj', None) \<Rightarrow> (obj', None)))"

text \<open>
  The loop that ends \<^verbatim>\<open>BatchCreate\<close> and \<^verbatim>\<open>BatchPut\<close>: \<^verbatim>\<open>ResolveKey(key, objs[i])\<close> for
  every key, remembering the last error. \<^verbatim>\<open>objs[i]\<close> panics when there are more keys than
  objects.
\<close>

fun resolveKeys ::
  "'o Object \<Rightarrow> 'o DSEnt \<Rightarrow> Key option list \<Rightarrow> 'o list \<Rightarrow> error option
   \<Rightarrow> panic + ('o list \<times> error option)" where
  "resolveKeys T db [] objs loadKeyErr = Inr (objs, loadKeyErr)"
| "resolveKeys T db (key # keys) [] loadKeyErr = Inl IndexOutOfRange"
| "resolveKeys T db (key # keys) (obj # objs) loadKeyErr =
     (case ResolveKey T db key obj of
        (obj', err) \<Rightarrow>
          (case resolveKeys T db keys objs (if err \<noteq> None then err else loadKeyErr) of
             Inl p \<Rightarrow> Inl p
           | Inr (objs', loadKeyErr') \<Rightarrow> Inr (obj' # objs', loadKeyErr')))"

definition BatchCreateTx ::
  "'o Object \<Rightarrow> 'o DSEnt \<Rightarrow> 'o Transaction \<Rightarrow> 'o list
   \<Rightarrow> (PendingKey option list \<times> 'o list \<times> error option) \<times> 'o Transaction" where
  "BatchCreateTx T db tx objs =
     (case buildKeys T db objs of
        (keys, Some err) \<Rightarrow> (([], objs, Some err), tx)
      | (keys, None) \<Rightarrow>
          (let muts = map2 NewInsert keys objs;
               tx' = tx\<lparr>issued := issued tx @ muts\<rparr>
           in case tx_Mutate (Client db) tx muts of
                (pks, Some err) \<Rightarrow> (([], objs, Some err), tx')
              | (pks, None) \<Rightarrow> ((pks, objs, None), tx')))"


text \<open>
  The callback \<^verbatim>\<open>BatchCreate\<close> hands to \<^verbatim>\<open>RunInTransaction\<close>; it assigns the captured
  \<^verbatim>\<open>pks\<close> and \<^verbatim>\<open>objs\<close>. (The captured \<^verbatim>\<open>err\<close> is overwritten by the result of
  \<^verbatim>\<open>RunInTransaction\<close>.)
\<close>

definition BatchCreate_callback ::
  "'o Object \<Rightarrow> 'o DSEnt \<Rightarrow> PendingKey option list \<times> 'o list \<Rightarrow> 'o Transaction
   \<Rightarrow> panic + ((PendingKey option list \<times> 'o list) \<times> error option \<times> 'o Transaction)" where
  "BatchCreate_callback T db v tx =
     (case BatchCreateTx T db tx (snd v) of
        ((pks, objs, err), tx') \<Rightarrow> Inr ((pks, objs), err, tx'))"

definition BatchCreate ::
  "'o Object \<Rightarrow> 'o DSEnt \<Rightarrow> 'o list \<Rightarrow> panic + (Key option list \<times> 'o list \<times> error option)" where
  "BatchCreate T db objs =
     (case RunInTransaction (Client db) (BatchCreate_callback T db) ([], objs) of
        Inl p \<Rightarrow> Inl p
      | Inr ((pks, objs'), Inl err, applied) \<Rightarrow> Inr ([], objs', Some err)
      | Inr ((pks, objs'), Inr cmt, applied) \<Rightarrow>
          (let keys = map cmt pks
           in case resolveKeys T db keys objs' None of
                Inl p \<Rightarrow> Inl p
              | Inr (objs'', loadKeyErr) \<Rightarrow> Inr (keys, objs'', loadKeyErr)))"

definition BatchGetTx ::
  "'o Object \<Rightarrow> 'o DSEnt \<Rightarrow> 'o Transaction \<Rightarrow> 'o list \<Rightarrow> 'o list \<times> error option" where
  "BatchGetTx T db tx objs =
     (case buildKeys T db objs of
        (keys, Some err) \<Rightarrow> (objs, Some err)
      | (keys, None) \<Rightarrow>
          (case tx_GetMulti (Client db) tx keys objs of
             (loaded, Some err) \<Rightarrow> (in_place objs loaded, Some err)
           | (loaded, None) \<Rightarrow> (in_place objs loaded, None)))"

text \<open>
  The shared tail of \<^verbatim>\<open>Get\<close> and \<^verbatim>\<open>GetTx\<close>: a \<^verbatim>\<open>MultiError\<close> is replaced by its first
  element, and \<^verbatim>\<open>merr[0]\<close> panics on an empty one.
\<close>

definition unwrapMulti :: "error \<Rightarrow> panic + error option" where
  "unwrapMulti err =
     (case err of
        MultiError merr \<Rightarrow> (case merr of [] \<Rightarrow> Inl IndexOutOfRange | e # rest \<Rightarrow> Inr e)
      | _ \<Rightarrow> Inr (Some err))"

definition Get :: "'o Object \<Rightarrow> 'o DSEnt \<Rightarrow> 'o \<Rightarrow> panic + ('o \<times> error option)" where
  "Get T db obj =
     (case BuildKey T obj (namespace db) of
        (key, Some err) \<Rightarrow>
          (case unwrapMulti err of Inl p \<Rightarrow> Inl p | Inr err' \<Rightarrow> Inr (obj, err'))
      | (key, None) \<Rightarrow>
          (case client_Get (Client db) key obj of
             Inl p \<Rightarrow> Inl p
           | Inr (obj', err) \<Rightarrow> Inr (obj', err)))"

text \<open>
  \<^verbatim>\<open>GetTx\<close> returns \<^verbatim>\<open>obj\<close> on an error and \<^verbatim>\<open>objs[0]\<close> otherwise; both are the one
  entity of the slice \<^verbatim>\<open>[]T{obj}\<close>, in the state the lookup left it in.
\<close>

definition GetTx ::
  "'o Object \<Rightarrow> 'o DSEnt \<Rightarrow> 'o Transaction \<Rightarrow> 'o \<Rightarrow> panic + ('o \<times> error option)" where
  "GetTx T db tx obj =
     (case BatchGetTx T db tx [obj] of
        (objs, Some err) \<Rightarrow>
          (case unwrapMulti err of
             Inl p \<Rightarrow> Inl p
           | Inr err' \<Rightarrow> Inr (case objs of [] \<Rightarrow> obj | obj' # rest \<Rightarrow> obj', err'))
      | (objs, None) \<Rightarrow>
          (case objs of [] \<Rightarrow> Inl IndexOutOfRange | obj' # rest \<Rightarrow> Inr (obj', None)))"

definition BatchPutTx ::
  "'o Object \<Rightarrow> 'o DSEnt \<Rightarrow> 'o Transaction \<Rightarrow> 'o list
   \<Rightarrow> (PendingKey option list \<times> 'o list \<times> error option) \<times> 'o Transaction" where
  "BatchPutTx T db tx objs =
     (case buildKeys T db objs of
        (keys, Some err) \<Rightarrow> (([], objs, Some err), tx)
      | (keys, None) \<Rightarrow>
          (let muts = map2 NewUpsert keys objs;
               tx' = tx\<lparr>issued := issued tx @ muts\<rparr>
           in case tx_Mutate (Client db) tx muts of
                (pks, Some err) \<Rightarrow> (([], objs, Some err), tx')
              | (pks, None) \<Rightarrow> ((pks, objs, None), tx')))"


definition BatchPut_callback ::
  "'o Object \<Rightarrow> 'o DSEnt \<Rightarrow> PendingKey option list \<times> 'o list \<Rightarrow> 'o Transaction
   \<Rightarrow> panic + ((PendingKey option list \<times> 'o list) \<times> error option \<times> 'o Transaction)" where
  "BatchPut_callback T db v tx =
     (case BatchPutTx T db tx (snd v) of
        ((pks, objs, err), tx') \<Rightarrow> Inr ((pks, objs), err, tx'))"

text \<open>
  \<^verbatim>\<open>BatchPut\<close> overwrites the keys it built with the committed ones:
  \<^verbatim>\<open>keys[i] = cmt.Key(pk)\<close> for every pending key, which panics when there are more pending
  keys than keys.
\<close>

fun assignKeys :: "Commit \<Rightarrow> PendingKey option list \<Rightarrow> Key option list \<Rightarrow> panic + Key option list" where
  "assignKeys cmt [] keys = Inr keys"
| "assignKeys cmt (pk # pks) [] = Inl IndexOutOfRange"
| "assignKeys cmt (pk # pks) (key # keys) =
     (case assignKeys cmt pks keys of
        Inl p \<Rightarrow> Inl p
      | Inr keys' \<Rightarrow> Inr (cmt pk # keys'))"

definition BatchPut ::
  "'o Object \<Rightarrow> 'o DSEnt \<Rightarrow> 'o list \<Rightarrow> panic + (Key option list \<times> 'o list \<times> error option)" where
  "BatchPut T db objs =
     (case buildKeys T db objs of
        (keys, Some err) \<Rightarrow> Inr ([], objs, Some err)
      | (keys, None) \<Rightarrow>
          (case RunInTransaction (Client db) (BatchPut_callback T db) ([], objs) of
             Inl p \<Rightarrow> Inl p
           | Inr ((pks, objs'), Inl err, applied) \<Rightarrow> Inr ([], objs', Some err)
           | Inr ((pks, objs'), Inr cmt, applied) \<Rightarrow>
               (case assignKeys cmt pks keys of
                  Inl p \<Rightarrow> Inl p
                | Inr keys' \<Rightarrow>
                    (case resolveKeys T db keys' objs' None of
                       Inl p \<Rightarrow> Inl p
                     | Inr (objs'', loadKeyErr) \<Rightarrow> Inr (keys', objs'', loadKeyErr)))))"

text \<open>
  The block \<^verbatim>\<open>UpdateTx\<close> runs after the create-fallback and again after the update function:
  derive the key of the new value and compare it with the original key. \<open>Inr None\<close> lets
  the protocol go on; \<open>Inr (Some err)\<close> is the error \<^verbatim>\<open>UpdateTx\<close> returns with the object.
\<close>

definition checkKey :: "'o Object \<Rightarrow> 'o DSEnt \<Rightarrow> Key option \<Rightarrow> 'o \<Rightarrow> panic + error option" where
  "checkKey T db key obj =
     (case BuildKey T obj (namespace db) of
        (newKey, None) \<Rightarrow>
          (case cmpKey key newKey of
             Inl p \<Rightarrow> Inl p
           | Inr eq \<Rightarrow> if \<not> eq then Inr (Some ErrKeyChanged) else Inr None)
      | (newKey, Some err) \<Rightarrow> Inr (Some err))"

text \<open>
  \<^verbatim>\<open>UpdateTx\<close> from the call of the update function on: the abort test, the key check and the
  single mutation. Calling a \<^verbatim>\<open>nil\<close> update function panics.
\<close>

definition UpdateTx_update ::
  "'o Object \<Rightarrow> 'o DSEnt \<Rightarrow> 'o Transaction \<Rightarrow> Key option \<Rightarrow> bool \<Rightarrow> 'o
   \<Rightarrow> ('o \<Rightarrow> 'o \<times> error option) option
   \<Rightarrow> panic + (('o \<times> error option) \<times> 'o Transaction)" where
  "UpdateTx_update T db tx key created obj updateFunc =
     (case updateFunc of
        None \<Rightarrow> Inl NilFuncCall
      | Some uf \<Rightarrow>
          (case uf obj of
             (obj', err) \<Rightarrow>
               if errors_Is err ErrUpdateAbort then Inr ((obj', None), tx)
               else if err \<noteq> None then Inr ((obj', err), tx)
               else
                 (case checkKey T db key obj' of
                    Inl p \<Rightarrow> Inl p
                  | Inr (Some kerr) \<Rightarrow> Inr ((obj', Some kerr), tx)
                  | Inr None \<Rightarrow>
                      (let mut = (if created then NewInsert key obj' else NewUpdate key obj');
                           tx' = tx\<lparr>issued := issued tx @ [mut]\<rparr>
                       in case tx_Mutate (Client db) tx [mut] of
                            (pks, Some merr) \<Rightarrow> Inr ((obj', Some merr), tx')
                          | (pks, None) \<Rightarrow> Inr ((obj', None), tx')))))"

definition UpdateTx ::
  "'o Object \<Rightarrow> 'o DSEnt \<Rightarrow> 'o Transaction \<Rightarrow> 'o
   \<Rightarrow> ('o \<Rightarrow> 'o \<times> error option) option \<Rightarrow> ('o \<Rightarrow> 'o \<times> error option) option
   \<Rightarrow> panic + (('o \<times> error option) \<times> 'o Transaction)" where
  "UpdateTx T db tx obj updateFunc createFunc =
     (case BuildKey T obj (namespace db) of
        (key, Some err) \<Rightarrow> Inr ((obj, Some err), tx)
      | (key, None) \<Rightarrow>
          (case tx_Get (Client db) tx key obj of
             (obj1, gerr) \<Rightarrow>
               if gerr = Some ErrNoSuchEntity then
                 (case createFunc of
                    None \<Rightarrow> Inr ((obj1, gerr), tx)
                  | Some cf \<Rightarrow>
                      (case cf obj1 of
                         (obj2, Some cerr) \<Rightarrow> Inr ((obj2, Some cerr), tx)
                       | (obj2, None) \<Rightarrow>
                           (case checkKey T db key obj2 of
                              Inl p \<Rightarrow> Inl p
                            | Inr (Some kerr) \<Rightarrow> Inr ((obj2, Some kerr), tx)
                            | Inr None \<Rightarrow> UpdateTx_update T db tx key True obj2 updateFunc)))
               else if gerr \<noteq> None then Inr ((obj1, gerr), tx)
               else UpdateTx_update T db tx key False obj1 updateFunc))"





section \<open>Words of the specification\<close>

text \<open>A namespace is set uniformly on a key: the key and every ancestor carry it.\<close>

definition uniform_namespace :: "string \<Rightarrow> Key \<Rightarrow> bool" where
  "uniform_namespace ns key \<longleftrightarrow> list_all (\<lambda>a. Namespace a = ns) (chain key)"

text \<open>The identity of one level of a key, apart from its namespace.\<close>

definition level_id :: "Key \<Rightarrow> string \<times> 64 word \<times> string" where
  "level_id a = (Kind a, ID a, Name a)"


text \<open>
  What the post-commit resolution of \<^verbatim>\<open>BatchCreate\<close> and \<^verbatim>\<open>BatchPut\<close> is to return: every
  entity after its hook has seen its key, and the error of the last entity whose hook
  failed, \<^verbatim>\<open>nil\<close> if every hook succeeded.
\<close>

definition resolved_entities ::
  "'o Object \<Rightarrow> 'o DSEnt \<Rightarrow> Key option list \<Rightarrow> 'o list \<Rightarrow> 'o list" where
  "resolved_entities T db keys objs = map2 (\<lambda>key obj. fst (ResolveKey T db key obj)) keys objs"

definition resolution_errors ::
  "'o Object \<Rightarrow> 'o DSEnt \<Rightarrow> Key option list \<Rightarrow> 'o list \<Rightarrow> error list" where
  "resolution_errors T db keys objs =
     List.map_filter (\<lambda>(key, obj). snd (ResolveKey T db key obj)) (zip keys objs)"

definition last_resolution_error ::
  "'o Object \<Rightarrow> 'o DSEnt \<Rightarrow> Key option list \<Rightarrow> 'o list \<Rightarrow> error option" where
  "last_resolution_error T db keys objs =
     (case resolution_errors T db keys objs of [] \<Rightarrow> None | e # es \<Rightarrow> Some (last (e # es)))"

section \<open>An example entity type and store\<close>

text \<open>
  An entity in the style of the test suite's: a numeric identifier, a payload, and the
  identifier its \<^verbatim>\<open>LoadKey\<close> hook last saw. \<open>exampleT\<close> derives a root key and stamps the
  namespace on it; its hook rejects a key without a numeric identifier. \<open>childT\<close> derives
  a key under a fixed parent, sets the namespace on the leaf only, and has no hook.
\<close>

datatype exampleObj = ExampleObj (obj_ID: "64 word") (obj_Data: int) (obj_LoadedKey: "64 word")

definition exampleT :: "exampleObj Object" where
  "exampleT =
     \<lparr>BuildKey = (\<lambda>x ns. (Some (Key ''Test'' (obj_ID x) [] None ns), None)),
      KeyLoader = (\<lambda>x. Some (\<lambda>k.
        case k of
          None \<Rightarrow> (x, Some (OtherError ''nil key''))
        | Some key \<Rightarrow>
            if ID key = 0 then (x, Some (OtherError (Name key)))
            else (ExampleObj (obj_ID x) (obj_Data x) (ID key), None)))\<rparr>"

definition childT :: "exampleObj Object" where
  "childT =
     \<lparr>BuildKey = (\<lambda>x ns.
        (Some (Key ''Child'' (obj_ID x) [] (Some (Key ''Parent'' 1 [] None [])) ns), None)),
      KeyLoader = (\<lambda>x. None)\<rparr>"

fun pending_from :: "nat \<Rightarrow> 'a list \<Rightarrow> PendingKey option list" where
  "pending_from n [] = []"
| "pending_from n (x # xs) = Some n # pending_from (Suc n) xs"

text \<open>
  A store in which the entity with identifier 11 is missing and every other one is found
  with payload 7; the batched lookups report a missing entity in a multi-error. Mutations are accepted, one pending key each; the commit resolves
  pending keys 0 and 1 to keys without a numeric identifier and the others to complete
  keys.
\<close>

definition exampleCommit :: Commit where
  "exampleCommit pk =
     (case pk of
        None \<Rightarrow> None
      | Some i \<Rightarrow>
          if i = 0 then Some (Key ''Test'' 0 ''a'' None ''ns'')
          else if i = 1 then Some (Key ''Test'' 0 ''b'' None ''ns'')
          else Some (Key ''Test'' (of_nat i) [] None ''ns''))"

definition exampleStore :: "exampleObj datastore_Client" where
  "exampleStore =
     \<lparr>client_get = (\<lambda>keys xs.
        if list_ex (\<lambda>key. key = None) keys then (xs, Some (OtherError ''invalid key''))
        else if list_ex (\<lambda>key. map_option ID key = Some 11) keys
        then (xs, Some (MultiError
                (map (\<lambda>key. if map_option ID key = Some 11 then Some ErrNoSuchEntity else None)
                   keys)))
        else (map (\<lambda>x. ExampleObj (obj_ID x) 7 (obj_LoadedKey x)) xs, None)),
      tx_Get = (\<lambda>tx key x.
        case key of
          None \<Rightarrow> (x, Some (OtherError ''invalid key''))
        | Some k \<Rightarrow>
            if ID k = 11 then (x, Some ErrNoSuchEntity)
            else (ExampleObj (obj_ID x) 7 (obj_LoadedKey x), None)),
      tx_GetMulti = (\<lambda>tx keys xs. (xs, Some (MultiError [Some ErrNoSuchEntity]))),
      tx_Mutate = (\<lambda>tx muts. (pending_from 0 muts, None)),
      tx_DeleteMulti = (\<lambda>tx keys. None),
      newTransaction = (\<lambda>n. None),
      tx_Commit = (\<lambda>tx. Inr exampleCommit),
      attempts = 3\<rparr>"

definition exampleDB :: "exampleObj DSEnt" where
  "exampleDB = \<lparr>Client = exampleStore, namespace = ''ns'', kind = ''Test''\<rparr>"

definition tx0 :: "exampleObj Transaction" where
  "tx0 = \<lparr>attempt = 0, issued = []\<rparr>"

section \<open>Key equivalence\<close>

lemma chain_unfold:
  "chain k = k # (case Parent k of None \<Rightarrow> [] | Some nxt \<Rightarrow> chain nxt)"
  by (cases k) simp

lemma cmpKey_loop_chain: "cmpKey_loop a b = list_all2 same_level (chain a) (chain b)"
proof (induction a b rule: cmpKey_loop.induct)
  case (1 left right)
  have cl: "chain left = left # (case Parent left of None \<Rightarrow> [] | Some nxt \<Rightarrow> chain nxt)"
    by (rule chain_unfold)
  have cr: "chain right = right # (case Parent right of None \<Rightarrow> [] | Some nxt \<Rightarrow> chain nxt)"
    by (rule chain_unfold)
  have nonempty: "chain q \<noteq> []" for q
    by (cases q) simp
  show ?case
  proof (cases "same_level left right")
    case False
    then have "\<not> cmpKey_loop left right"
      by (subst cmpKey_loop.simps) (auto simp: same_level_def)
    moreover from False have "\<not> list_all2 same_level (chain left) (chain right)"
      by (subst cl, subst cr) simp
    ultimately show ?thesis by simp
  next
    case True
    then have same: "Namespace left = Namespace right" "Kind left = Kind right"
      "ID left = ID right" "Name left = Name right"
      by (simp_all add: same_level_def)
    show ?thesis
    proof (cases "Parent left")
      case None
      then have "cmpKey_loop left right = (Parent right = None)"
        by (subst cmpKey_loop.simps) (simp add: same)
      moreover from None True
      have "list_all2 same_level (chain left) (chain right) = (Parent right = None)"
        by (subst cl, subst cr) (simp add: nonempty split: option.splits)
      ultimately show ?thesis by simp
    next
      case (Some l)
      show ?thesis
      proof (cases "Parent right")
        case None
        with Some have "\<not> cmpKey_loop left right"
          by (subst cmpKey_loop.simps) (simp add: same)
        moreover from None Some
        have "\<not> list_all2 same_level (chain left) (chain right)"
          by (subst cl, subst cr) (simp add: nonempty)
        ultimately show ?thesis by simp
      next
        case (Some r)
        note pr = Some
        note pl = \<open>Parent left = Some l\<close>
        have "cmpKey_loop left right = cmpKey_loop l r"
          by (subst cmpKey_loop.simps) (simp add: same pl pr)
        also have "\<dots> = list_all2 same_level (chain l) (chain r)"
          using "1.IH" [of l r] same pl pr by simp
        also have "\<dots> = list_all2 same_level (chain left) (chain right)"
          using True by (subst cl, subst cr) (simp add: pl pr)
        finally show ?thesis .
      qed
    qed
  qed
qed

lemma keysEquivalent_refl: "keysEquivalent k k"
  by (simp add: keysEquivalent_def list_all2_same same_level_def)

text \<open>
  C3. For keys \<open>a\<close> and \<open>b\<close>, \<open>cmpKey\<close> returns true exactly when the two ancestor chains,
  walked from the leaf to the root, agree level by level in namespace, kind, identifier
  and name and end at the same depth. In particular a key is equivalent to itself, and
  two keys whose chains differ in length (one has an additional ancestor level) are not
  equivalent.
\<close>

theorem cmpKey_iff_chains_agree:
  "cmpKey (Some a) (Some b) = Inr (keysEquivalent a b)
   \<and> cmpKey (Some k) (Some k) = Inr True
   \<and> (length (chain a) \<noteq> length (chain b) \<longrightarrow> cmpKey (Some a) (Some b) = Inr False)"
proof (intro conjI impI)
  show "cmpKey (Some a) (Some b) = Inr (keysEquivalent a b)"
    by (simp add: cmpKey_loop_chain keysEquivalent_def)
  show "cmpKey (Some k) (Some k) = Inr True"
    using keysEquivalent_refl [of k] by (simp add: cmpKey_loop_chain keysEquivalent_def)
next
  assume "length (chain a) \<noteq> length (chain b)"
  then have "\<not> list_all2 same_level (chain a) (chain b)"
    by (auto dest: list_all2_lengthD)
  then show "cmpKey (Some a) (Some b) = Inr False"
    by (simp add: cmpKey_loop_chain)
qed

theorem cmpKey_iff_chains_agree_witness:
  "length (chain (Key ''Test'' 1 [] (Some (Key ''Org'' 7 [] None ''ns'')) ''ns''))
     \<noteq> length (chain (Key ''Test'' 1 [] None ''ns''))
   \<and> cmpKey (Some (Key ''Test'' 1 [] (Some (Key ''Org'' 7 [] None ''ns'')) ''ns''))
            (Some (Key ''Test'' 1 [] None ''ns'')) = Inr False
   \<and> cmpKey (Some (Key ''Test'' 1 [] None ''ns'')) (Some (Key ''Test'' 1 [] None ''ns''))
       = Inr True"
proof -
  have h: "length (chain (Key ''Test'' 1 [] (Some (Key ''Org'' 7 [] None ''ns'')) ''ns''))
     \<noteq> length (chain (Key ''Test'' 1 [] None ''ns''))"
    by simp
  from h cmpKey_iff_chains_agree
    [of "Key ''Test'' 1 [] (Some (Key ''Org'' 7 [] None ''ns'')) ''ns''"
        "Key ''Test'' 1 [] None ''ns''" "Key ''Test'' 1 [] None ''ns''"]
  show ?thesis by blast
qed

section \<open>Key derivation and the namespace\<close>

lemma chain_SetNS_chain:
  "chain (SetNS_chain key ns) = map (\<lambda>a. Key (Kind a) (ID a) (Name a)
      (case Parent a of None \<Rightarrow> None | Some nxt \<Rightarrow> Some (SetNS_chain nxt ns)) ns) (chain key)"
  by (induction key ns rule: SetNS_chain.induct) (simp split: option.splits)

lemma SetNS_chain_uniform: "uniform_namespace ns (SetNS_chain key ns)"
  by (simp add: uniform_namespace_def chain_SetNS_chain list_all_iff)

lemma SetNS_chain_levels:
  "map level_id (chain (SetNS_chain key ns)) = map level_id (chain key)"
  by (simp add: chain_SetNS_chain level_id_def)

lemma buildKeys_loop_keys:
  "buildKeys_loop T ns objs = (keys, None)
   \<Longrightarrow> keys = map (\<lambda>obj. fst (BuildKey T obj ns)) objs"
  by (induction objs arbitrary: keys) (auto split: prod.splits option.splits)

lemma buildKeys_length:
  "buildKeys T db objs = (keys, None) \<Longrightarrow> length keys = length objs"
  by (auto simp: buildKeys_def dest: buildKeys_loop_keys)

text \<open>
  C7, as the code has it. \<^verbatim>\<open>SetNS\<close> returns the key with the namespace on the key and
  on every ancestor, and with the kind, identifier and name of every level as they were.
  The session's key derivation does not call \<^verbatim>\<open>SetNS\<close>: \<^verbatim>\<open>buildKeys\<close> returns, in order,
  the keys the entities' own \<^verbatim>\<open>BuildKey\<close> derives for the session's namespace, unchanged.
\<close>

theorem SetNS_uniform_buildKeys_delegates:
  "SetNS (Some key) ns = Inr (Some (SetNS_chain key ns))
   \<and> uniform_namespace ns (SetNS_chain key ns)
   \<and> map level_id (chain (SetNS_chain key ns)) = map level_id (chain key)
   \<and> (buildKeys T db objs = (keys, None)
        \<longrightarrow> keys = map (\<lambda>obj. fst (BuildKey T obj (namespace db))) objs)"
  using SetNS_chain_uniform [of ns key] SetNS_chain_levels [of key ns]
    buildKeys_loop_keys [of T "namespace db" objs keys]
  by (simp add: buildKeys_def)

theorem SetNS_uniform_buildKeys_delegates_witness:
  "buildKeys childT exampleDB [ExampleObj 3 0 0, ExampleObj 4 0 0]
     = ([Some (Key ''Child'' 3 [] (Some (Key ''Parent'' 1 [] None [])) ''ns''),
         Some (Key ''Child'' 4 [] (Some (Key ''Parent'' 1 [] None [])) ''ns'')], None)
   \<and> uniform_namespace ''ns''
       (SetNS_chain (Key ''Child'' 3 [] (Some (Key ''Parent'' 1 [] None [])) []) ''ns'')"
proof -
  have b: "buildKeys childT exampleDB [ExampleObj 3 0 0, ExampleObj 4 0 0]
     = ([Some (Key ''Child'' 3 [] (Some (Key ''Parent'' 1 [] None [])) ''ns''),
         Some (Key ''Child'' 4 [] (Some (Key ''Parent'' 1 [] None [])) ''ns'')], None)"
    by (simp add: buildKeys_def childT_def exampleDB_def)
  from SetNS_uniform_buildKeys_delegates
    [of "Key ''Child'' 3 [] (Some (Key ''Parent'' 1 [] None [])) []" "''ns''"
        childT exampleDB "[ExampleObj 3 0 0, ExampleObj 4 0 0]"
        "[Some (Key ''Child'' 3 [] (Some (Key ''Parent'' 1 [] None [])) ''ns''),
          Some (Key ''Child'' 4 [] (Some (Key ''Parent'' 1 [] None [])) ''ns'')]"]
    b
  show ?thesis by blast
qed

text \<open>
  The claim as stated fails: the session derives, for \<open>childT\<close>, a key whose parent is
  not in the session's namespace.
\<close>

theorem buildKeys_namespace_not_uniform:
  "buildKeys childT exampleDB [ExampleObj 3 0 0]
     = ([Some (Key ''Child'' 3 [] (Some (Key ''Parent'' 1 [] None [])) ''ns'')], None)
   \<and> \<not> uniform_namespace (namespace exampleDB)
         (Key ''Child'' 3 [] (Some (Key ''Parent'' 1 [] None [])) ''ns'')"
  by (simp add: buildKeys_def childT_def exampleDB_def uniform_namespace_def)

section \<open>The key-resolution hook\<close>

text \<open>
  C10. \<^verbatim>\<open>ResolveKey\<close> returns \<^verbatim>\<open>nil\<close> and leaves the object as it is when the object has
  no \<^verbatim>\<open>LoadKey\<close> hook; when it has one, \<^verbatim>\<open>ResolveKey\<close> returns what the hook returns for
  the key (the error, and the object as the hook left it).
\<close>

theorem ResolveKey_is_LoadKey:
  "(KeyLoader T obj = None \<longrightarrow> ResolveKey T db key obj = (obj, None))
   \<and> (KeyLoader T obj = Some LoadKey \<longrightarrow> ResolveKey T db key obj = LoadKey key)"
  by (simp add: ResolveKey_def split: prod.splits option.splits)

theorem ResolveKey_is_LoadKey_witness:
  "ResolveKey childT exampleDB (Some (Key ''Test'' 5 [] None ''ns'')) (ExampleObj 5 1 0)
     = (ExampleObj 5 1 0, None)
   \<and> ResolveKey exampleT exampleDB (Some (Key ''Test'' 5 [] None ''ns'')) (ExampleObj 5 1 0)
     = (ExampleObj 5 1 5, None)
   \<and> ResolveKey exampleT exampleDB (Some (Key ''Test'' 0 ''a'' None ''ns'')) (ExampleObj 5 1 0)
     = (ExampleObj 5 1 0, Some (OtherError ''a''))"
proof -
  have n: "KeyLoader childT (ExampleObj 5 1 0) = None"
    by (simp add: childT_def)
  obtain LoadKey where l: "KeyLoader exampleT (ExampleObj 5 1 0) = Some LoadKey"
    and l1: "LoadKey (Some (Key ''Test'' 5 [] None ''ns'')) = (ExampleObj 5 1 5, None)"
    and l2: "LoadKey (Some (Key ''Test'' 0 ''a'' None ''ns''))
               = (ExampleObj 5 1 0, Some (OtherError ''a''))"
    by (simp add: exampleT_def)
  from n l l1 l2
    ResolveKey_is_LoadKey [of childT "ExampleObj 5 1 0" exampleDB
      "Some (Key ''Test'' 5 [] None ''ns'')" LoadKey]
    ResolveKey_is_LoadKey [of exampleT "ExampleObj 5 1 0" exampleDB
      "Some (Key ''Test'' 5 [] None ''ns'')" LoadKey]
    ResolveKey_is_LoadKey [of exampleT "ExampleObj 5 1 0" exampleDB
      "Some (Key ''Test'' 0 ''a'' None ''ns'')" LoadKey]
  show ?thesis by simp
qed

section \<open>The update protocol\<close>


text \<open>
  C5. When the read of the derived key inside the transaction reports not-found and no
  create-fallback was supplied (\<^verbatim>\<open>createFunc == nil\<close>), \<^verbatim>\<open>UpdateTx\<close> returns the not-found
  error (\<^verbatim>\<open>ErrNotFound\<close>, which is \<^verbatim>\<open>datastore.ErrNoSuchEntity\<close>) and leaves the
  transaction as it was: no mutation is issued. The update function is not called: the
  result is the same for every update function, also for a \<^verbatim>\<open>nil\<close> one, whose call would
  panic.
\<close>

theorem UpdateTx_not_found_without_create:
  "BuildKey T obj (namespace db) = (key, None)
   \<and> tx_Get (Client db) tx key obj = (obj1, Some ErrNoSuchEntity)
   \<longrightarrow> UpdateTx T db tx obj updateFunc None = Inr ((obj1, Some ErrNotFound), tx)
       \<and> UpdateTx T db tx obj None None = Inr ((obj1, Some ErrNotFound), tx)"
  by (simp add: UpdateTx_def)

theorem UpdateTx_not_found_without_create_witness:
  "UpdateTx exampleT exampleDB tx0 (ExampleObj 11 0 0) (Some (\<lambda>x. (x, None))) None
     = Inr ((ExampleObj 11 0 0, Some ErrNotFound), tx0)
   \<and> UpdateTx exampleT exampleDB tx0 (ExampleObj 11 0 0) None None
     = Inr ((ExampleObj 11 0 0, Some ErrNotFound), tx0)"
proof -
  have k: "BuildKey exampleT (ExampleObj 11 0 0) (namespace exampleDB)
             = (Some (Key ''Test'' 11 [] None ''ns''), None)"
    by (simp add: exampleT_def exampleDB_def)
  have g: "tx_Get (Client exampleDB) tx0 (Some (Key ''Test'' 11 [] None ''ns'')) (ExampleObj 11 0 0)
             = (ExampleObj 11 0 0, Some ErrNoSuchEntity)"
    by (simp add: exampleDB_def exampleStore_def)
  from k g UpdateTx_not_found_without_create
    [of exampleT "ExampleObj 11 0 0" exampleDB "Some (Key ''Test'' 11 [] None ''ns'')" tx0
        "ExampleObj 11 0 0" "Some (\<lambda>x. (x, None))"]
  show ?thesis by blast
qed



subsection \<open>Runs on the example store\<close>

lemma example_key:
  "BuildKey exampleT (ExampleObj i d l) (namespace exampleDB) = (Some (Key ''Test'' i [] None ''ns''), None)"
  by (simp add: exampleT_def exampleDB_def)

lemma example_read_missing:
  "tx_Get (Client exampleDB) tx (Some (Key ''Test'' 11 [] None ''ns'')) x = (x, Some ErrNoSuchEntity)"
  by (simp add: exampleDB_def exampleStore_def)

lemma example_read_found:
  "tx_Get (Client exampleDB) tx (Some (Key ''Test'' 1 [] None ''ns'')) (ExampleObj 1 0 0)
     = (ExampleObj 1 7 0, None)"
  by (simp add: exampleDB_def exampleStore_def)




text \<open>
  C2. When the update function returns an error that \<^verbatim>\<open>errors.Is\<close> recognises as
  \<^verbatim>\<open>ErrUpdateAbort\<close>, \<^verbatim>\<open>UpdateTx\<close> returns the value the update function produced with a
  \<^verbatim>\<open>nil\<close> error, and the transaction is as it was: no mutation is issued. The update
  function runs on the entity that was read, or on the value of the create-fallback
  when the read reported not-found and that value kept the key.
\<close>

theorem UpdateTx_abort_is_noop:
  "BuildKey T obj (namespace db) = (key, None) \<and> updateFunc = Some uf
     \<and> errors_Is err ErrUpdateAbort \<longrightarrow>
   (tx_Get (Client db) tx key obj = (obj1, None) \<and> uf obj1 = (obj3, err)
    \<longrightarrow> UpdateTx T db tx obj updateFunc createFunc = Inr ((obj3, None), tx))
   \<and> (tx_Get (Client db) tx key obj = (obj1, Some ErrNoSuchEntity)
      \<and> createFunc = Some cf \<and> cf obj1 = (obj2, None)
      \<and> BuildKey T obj2 (namespace db) = (key2, None) \<and> cmpKey key key2 = Inr True
      \<and> uf obj2 = (obj3, err)
    \<longrightarrow> UpdateTx T db tx obj updateFunc createFunc = Inr ((obj3, None), tx))"
  by (simp add: UpdateTx_def UpdateTx_update_def checkKey_def)

theorem UpdateTx_abort_is_noop_witness:
  "UpdateTx exampleT exampleDB tx0 (ExampleObj 1 0 0)
      (Some (\<lambda>x. (ExampleObj (obj_ID x) 99 0, Some (Wrapped ''skip'' ErrUpdateAbort)))) None
     = Inr ((ExampleObj 1 99 0, None), tx0)
   \<and> UpdateTx exampleT exampleDB tx0 (ExampleObj 11 0 0)
      (Some (\<lambda>x. (ExampleObj (obj_ID x) 99 0, Some (Wrapped ''skip'' ErrUpdateAbort))))
      (Some (\<lambda>x. (ExampleObj 11 1 0, None)))
     = Inr ((ExampleObj 11 99 0, None), tx0)"
proof -
  have is_abort: "errors_Is (Some (Wrapped ''skip'' ErrUpdateAbort)) ErrUpdateAbort"
    by simp
  have same: "cmpKey (Some (Key ''Test'' 11 [] None ''ns'')) (Some (Key ''Test'' 11 [] None ''ns''))
      = Inr True"
    by (simp add: cmpKey_loop.simps)
  have a: "UpdateTx exampleT exampleDB tx0 (ExampleObj 1 0 0)
      (Some (\<lambda>x. (ExampleObj (obj_ID x) 99 0, Some (Wrapped ''skip'' ErrUpdateAbort)))) None
     = Inr ((ExampleObj 1 99 0, None), tx0)"
    using UpdateTx_abort_is_noop
      [where T = exampleT and db = exampleDB and tx = tx0 and obj = "ExampleObj 1 0 0"
        and key = "Some (Key ''Test'' 1 [] None ''ns'')" and ?obj1.0 = "ExampleObj 1 7 0"
        and createFunc = None and err = "Some (Wrapped ''skip'' ErrUpdateAbort)"
        and updateFunc = "Some (\<lambda>x. (ExampleObj (obj_ID x) 99 0, Some (Wrapped ''skip'' ErrUpdateAbort)))"
        and uf = "\<lambda>x. (ExampleObj (obj_ID x) 99 0, Some (Wrapped ''skip'' ErrUpdateAbort))"
        and ?obj3.0 = "ExampleObj 1 99 0"]
      example_key example_read_found is_abort
    by simp
  have b: "UpdateTx exampleT exampleDB tx0 (ExampleObj 11 0 0)
      (Some (\<lambda>x. (ExampleObj (obj_ID x) 99 0, Some (Wrapped ''skip'' ErrUpdateAbort))))
      (Some (\<lambda>x. (ExampleObj 11 1 0, None)))
     = Inr ((ExampleObj 11 99 0, None), tx0)"
    using UpdateTx_abort_is_noop
      [where T = exampleT and db = exampleDB and tx = tx0 and obj = "ExampleObj 11 0 0"
        and key = "Some (Key ''Test'' 11 [] None ''ns'')" and ?obj1.0 = "ExampleObj 11 0 0"
        and createFunc = "Some (\<lambda>x. (ExampleObj 11 1 0, None))"
        and cf = "\<lambda>x. (ExampleObj 11 1 0, None)" and ?obj2.0 = "ExampleObj 11 1 0"
        and ?key2.0 = "Some (Key ''Test'' 11 [] None ''ns'')"
        and err = "Some (Wrapped ''skip'' ErrUpdateAbort)"
        and updateFunc = "Some (\<lambda>x. (ExampleObj (obj_ID x) 99 0, Some (Wrapped ''skip'' ErrUpdateAbort)))"
        and uf = "\<lambda>x. (ExampleObj (obj_ID x) 99 0, Some (Wrapped ''skip'' ErrUpdateAbort))"
        and ?obj3.0 = "ExampleObj 11 99 0"]
      example_key example_read_missing is_abort same
    by simp
  from a b show ?thesis by simp
qed

text \<open>
  C4, as the code has it. A run of \<^verbatim>\<open>UpdateTx\<close> that returns without an error called the
  update function, on the entity that was read or, after a not-found read, on the value
  of the create-fallback. Either the update function signalled abort, and then no
  mutation is issued; or exactly one mutation is issued, for the original key and the
  value returned: an insert when the read reported not-found (the create-fallback ran and
  the record was marked created), an update-existing mutation otherwise, which by the
  store's contract fails when the record does not exist at the time it is applied.
\<close>

theorem UpdateTx_success_mutation:
  assumes ret: "UpdateTx T db tx obj updateFunc createFunc = Inr ((obj', None), tx')"
    and key: "BuildKey T obj (namespace db) = (key, kerr)"
    and read: "tx_Get (Client db) tx key obj = (obj1, gerr)"
  shows "\<exists>uf cur. updateFunc = Some uf
      \<and> (if gerr = Some ErrNoSuchEntity
         then \<exists>cf. createFunc = Some cf \<and> cur = fst (cf obj1)
         else gerr = None \<and> cur = obj1)
      \<and> obj' = fst (uf cur)
      \<and> (if errors_Is (snd (uf cur)) ErrUpdateAbort then tx' = tx
         else tx' = tx\<lparr>issued := issued tx @
                 [if gerr = Some ErrNoSuchEntity then NewInsert key obj' else NewUpdate key obj']\<rparr>
            \<and> (gerr \<noteq> Some ErrNoSuchEntity
                 \<longrightarrow> (\<forall>exists. \<not> exists key \<longrightarrow> mutation_fails exists (last (issued tx')))))"
proof -
  have upd: "\<exists>uf. updateFunc = Some uf \<and> obj' = fst (uf cur)
      \<and> (if errors_Is (snd (uf cur)) ErrUpdateAbort then tx' = tx
         else tx' = tx\<lparr>issued := issued tx @
                 [if created then NewInsert key obj' else NewUpdate key obj']\<rparr>)"
    if "UpdateTx_update T db tx key created cur updateFunc = Inr ((obj', None), tx')"
    for created cur
    using that
    by (auto simp: UpdateTx_update_def Let_def
        split: option.splits prod.splits if_splits sum.splits)
  from ret key have kerr: "kerr = None"
    by (auto simp: UpdateTx_def split: option.splits)
  show ?thesis
  proof (cases "gerr = Some ErrNoSuchEntity")
    case True
    with ret key read kerr obtain cf where cf: "createFunc = Some cf"
      and u: "UpdateTx_update T db tx key True (fst (cf obj1)) updateFunc = Inr ((obj', None), tx')"
      by (auto simp: UpdateTx_def split: option.splits prod.splits sum.splits)
    from upd [OF u] True cf show ?thesis by auto
  next
    case False
    with ret key read kerr have g: "gerr = None"
      and u: "UpdateTx_update T db tx key False obj1 updateFunc = Inr ((obj', None), tx')"
      by (auto simp: UpdateTx_def split: if_splits)
    from upd [OF u] obtain uf where uf: "updateFunc = Some uf" "obj' = fst (uf obj1)"
      "if errors_Is (snd (uf obj1)) ErrUpdateAbort then tx' = tx
       else tx' = tx\<lparr>issued := issued tx @ [NewUpdate key obj']\<rparr>"
      by auto
    show ?thesis
    proof (intro exI [of _ uf] exI [of _ obj1] conjI)
      show "updateFunc = Some uf" by (rule uf)
      show "if gerr = Some ErrNoSuchEntity
         then \<exists>cf. createFunc = Some cf \<and> obj1 = fst (cf obj1)
         else gerr = None \<and> obj1 = obj1"
        using g by simp
      show "obj' = fst (uf obj1)" by (rule uf)
      show "if errors_Is (snd (uf obj1)) ErrUpdateAbort then tx' = tx
         else tx' = tx\<lparr>issued := issued tx @
                 [if gerr = Some ErrNoSuchEntity then NewInsert key obj' else NewUpdate key obj']\<rparr>
            \<and> (gerr \<noteq> Some ErrNoSuchEntity
                 \<longrightarrow> (\<forall>exists. \<not> exists key \<longrightarrow> mutation_fails exists (last (issued tx'))))"
        using uf(3) g by (auto split: if_splits)
    qed
  qed
qed

text \<open>
  The claim as stated fails: a run in which the update function aborts returns without an
  error and issues no mutation.
\<close>

theorem UpdateTx_abort_succeeds_without_mutation:
  "UpdateTx exampleT exampleDB tx0 (ExampleObj 1 0 0) (Some (\<lambda>x. (x, Some ErrUpdateAbort))) None
     = Inr ((ExampleObj 1 7 0, None), tx0)
   \<and> issued tx0 = []"
  by (simp add: UpdateTx_def UpdateTx_update_def exampleT_def exampleDB_def exampleStore_def
      tx0_def)

lemma example_update_run:
  "UpdateTx exampleT exampleDB tx0 (ExampleObj 1 0 0)
      (Some (\<lambda>x. (ExampleObj (obj_ID x) 2 0, None))) None
     = Inr ((ExampleObj 1 2 0, None),
        tx0\<lparr>issued := [NewUpdate (Some (Key ''Test'' 1 [] None ''ns'')) (ExampleObj 1 2 0)]\<rparr>)"
  by (simp add: UpdateTx_def UpdateTx_update_def checkKey_def exampleT_def exampleDB_def
      exampleStore_def tx0_def cmpKey_loop.simps)

lemma example_create_run:
  "UpdateTx exampleT exampleDB tx0 (ExampleObj 11 0 0)
      (Some (\<lambda>x. (ExampleObj (obj_ID x) 2 0, None))) (Some (\<lambda>x. (ExampleObj 11 1 0, None)))
     = Inr ((ExampleObj 11 2 0, None),
        tx0\<lparr>issued := [NewInsert (Some (Key ''Test'' 11 [] None ''ns'')) (ExampleObj 11 2 0)]\<rparr>)"
  by (simp add: UpdateTx_def UpdateTx_update_def checkKey_def exampleT_def exampleDB_def
      exampleStore_def tx0_def cmpKey_loop.simps)

theorem UpdateTx_success_mutation_witness:
  "UpdateTx exampleT exampleDB tx0 (ExampleObj 1 0 0)
      (Some (\<lambda>x. (ExampleObj (obj_ID x) 2 0, None))) None
     = Inr ((ExampleObj 1 2 0, None),
        tx0\<lparr>issued := [NewUpdate (Some (Key ''Test'' 1 [] None ''ns'')) (ExampleObj 1 2 0)]\<rparr>)
   \<and> mutation_fails (\<lambda>k. False)
        (last (issued (tx0\<lparr>issued :=
           [NewUpdate (Some (Key ''Test'' 1 [] None ''ns'')) (ExampleObj 1 2 0)]\<rparr>)))
   \<and> UpdateTx exampleT exampleDB tx0 (ExampleObj 11 0 0)
      (Some (\<lambda>x. (ExampleObj (obj_ID x) 2 0, None))) (Some (\<lambda>x. (ExampleObj 11 1 0, None)))
     = Inr ((ExampleObj 11 2 0, None),
        tx0\<lparr>issued := [NewInsert (Some (Key ''Test'' 11 [] None ''ns'')) (ExampleObj 11 2 0)]\<rparr>)
   \<and> (\<exists>cf. Some (\<lambda>x. (ExampleObj 11 1 0, None)) = Some cf
          \<and> ExampleObj 11 1 0 = fst (cf (ExampleObj 11 0 0)))"
proof -
  have no_abort: "\<not> errors_Is (snd (uf cur)) ErrUpdateAbort"
    if "Some (\<lambda>x. (ExampleObj (obj_ID x) 2 0, None)) = Some uf" for uf cur
    using that by auto
  from UpdateTx_success_mutation [OF example_update_run example_key example_read_found]
  have u: "mutation_fails (\<lambda>k. False)
        (last (issued (tx0\<lparr>issued :=
           [NewUpdate (Some (Key ''Test'' 1 [] None ''ns'')) (ExampleObj 1 2 0)]\<rparr>)))"
    using no_abort by (auto split: if_splits)
  from UpdateTx_success_mutation [OF example_create_run example_key example_read_missing]
  have c: "\<exists>cf. Some (\<lambda>x. (ExampleObj 11 1 0, None)) = Some cf
          \<and> ExampleObj 11 1 0 = fst (cf (ExampleObj 11 0 0))"
    by auto
  from example_update_run example_create_run u c show ?thesis by simp
qed

section \<open>Single-entity reads and the batch forms\<close>

lemma in_place_singleton:
  "in_place [obj] loaded = [case loaded of [] \<Rightarrow> obj | x # xs \<Rightarrow> x]"
  by (cases loaded) (simp_all add: in_place_def)


text \<open>
  C6. A single-entity read returns the single contained error, not the wrapper, when the
  store's lookup reports the failure as a multi-error with one element. \<^verbatim>\<open>GetTx\<close> looks
  the entity up through the batched lookup of the transaction and replaces a multi-error
  by its first element itself. \<^verbatim>\<open>Get\<close> hands the key to the client's single-key lookup
  and returns what that lookup returns; the lookup has already replaced the multi-error
  of the store by its first element. (Both hold for a multi-error of any length, with
  the first element.)
\<close>

theorem Get_and_GetTx_unwrap_multi_error:
  "(buildKeys T db [obj] = (keys, None)
      \<and> tx_GetMulti (Client db) tx keys [obj] = (loaded, Some (MultiError (e # rest)))
    \<longrightarrow> GetTx T db tx obj = Inr (case loaded of [] \<Rightarrow> obj | x # xs \<Rightarrow> x, e))
   \<and> (BuildKey T obj (namespace db) = (key, None)
      \<and> client_get (Client db) [key] [obj] = (loaded, Some (MultiError (e # rest)))
    \<longrightarrow> Get T db obj = Inr (case loaded of [] \<Rightarrow> obj | x # xs \<Rightarrow> x, e))
   \<and> (BuildKey T obj (namespace db) = (key, None)
    \<longrightarrow> Get T db obj = client_Get (Client db) key obj)"
proof (intro conjI impI; (elim conjE)?)
  assume "buildKeys T db [obj] = (keys, None)"
    and "tx_GetMulti (Client db) tx keys [obj] = (loaded, Some (MultiError (e # rest)))"
  then show "GetTx T db tx obj = Inr (case loaded of [] \<Rightarrow> obj | x # xs \<Rightarrow> x, e)"
    by (simp add: GetTx_def BatchGetTx_def unwrapMulti_def in_place_singleton)
next
  assume "BuildKey T obj (namespace db) = (key, None)"
    and "client_get (Client db) [key] [obj] = (loaded, Some (MultiError (e # rest)))"
  then show "Get T db obj = Inr (case loaded of [] \<Rightarrow> obj | x # xs \<Rightarrow> x, e)"
    by (simp add: Get_def client_Get_def in_place_singleton)
next
  assume "BuildKey T obj (namespace db) = (key, None)"
  then show "Get T db obj = client_Get (Client db) key obj"
    by (simp add: Get_def split: sum.splits prod.splits)
qed

theorem Get_and_GetTx_unwrap_multi_error_witness:
  "GetTx exampleT exampleDB tx0 (ExampleObj 11 0 0) = Inr (ExampleObj 11 0 0, Some ErrNoSuchEntity)
   \<and> Get exampleT exampleDB (ExampleObj 11 0 0) = Inr (ExampleObj 11 0 0, Some ErrNoSuchEntity)"
proof -
  have k: "buildKeys exampleT exampleDB [ExampleObj 11 0 0]
             = ([Some (Key ''Test'' 11 [] None ''ns'')], None)"
    by (simp add: buildKeys_def exampleT_def exampleDB_def)
  have g: "tx_GetMulti (Client exampleDB) tx0 [Some (Key ''Test'' 11 [] None ''ns'')]
             [ExampleObj 11 0 0]
           = ([ExampleObj 11 0 0], Some (MultiError (Some ErrNoSuchEntity # [])))"
    by (simp add: exampleDB_def exampleStore_def)
  have c: "client_get (Client exampleDB) [Some (Key ''Test'' 11 [] None ''ns'')]
             [ExampleObj 11 0 0]
           = ([ExampleObj 11 0 0], Some (MultiError (Some ErrNoSuchEntity # [])))"
    by (simp add: exampleDB_def exampleStore_def)
  have a: "GetTx exampleT exampleDB tx0 (ExampleObj 11 0 0)
             = Inr (ExampleObj 11 0 0, Some ErrNoSuchEntity)"
    using Get_and_GetTx_unwrap_multi_error
      [where T = exampleT and db = exampleDB and tx = tx0 and obj = "ExampleObj 11 0 0"
        and keys = "[Some (Key ''Test'' 11 [] None ''ns'')]" and loaded = "[ExampleObj 11 0 0]"
        and e = "Some ErrNoSuchEntity" and rest = "[]"]
      k g
    by simp
  have b: "Get exampleT exampleDB (ExampleObj 11 0 0)
             = Inr (ExampleObj 11 0 0, Some ErrNoSuchEntity)"
    using Get_and_GetTx_unwrap_multi_error
      [where T = exampleT and db = exampleDB and obj = "ExampleObj 11 0 0"
        and key = "Some (Key ''Test'' 11 [] None ''ns'')" and loaded = "[ExampleObj 11 0 0]"
        and e = "Some ErrNoSuchEntity" and rest = "[]"]
      example_key c
    by simp
  from a b show ?thesis by simp
qed

lemma BatchCreateTx_objs: "BatchCreateTx T db tx objs = ((pks, objs', err), tx') \<Longrightarrow> objs' = objs"
  by (auto simp: BatchCreateTx_def Let_def split: prod.splits option.splits)

lemma BatchPutTx_objs: "BatchPutTx T db tx objs = ((pks, objs', err), tx') \<Longrightarrow> objs' = objs"
  by (auto simp: BatchPutTx_def Let_def split: prod.splits option.splits)





section \<open>Batch create and put\<close>

lemma RunInTransaction_from_vars:
  assumes step: "\<And>v tx v' e tx'. P v \<Longrightarrow> f v tx = Inr (v', e, tx') \<Longrightarrow> P v'"
  shows "P v \<Longrightarrow> RunInTransaction_from c k n f v = Inr (v', r, applied) \<Longrightarrow> P v'"
proof (induction k arbitrary: n v)
  case 0
  then show ?case by simp
next
  case (Suc k)
  show ?case
  proof (cases "newTransaction c n")
    case (Some e)
    with Suc.prems show ?thesis by simp
  next
    case None
    show ?thesis
    proof (cases "f v \<lparr>attempt = n, issued = []\<rparr>")
      case (Inl p)
      with None Suc.prems show ?thesis by simp
    next
      case (Inr res)
      then obtain v1 e1 tx1 where res: "f v \<lparr>attempt = n, issued = []\<rparr> = Inr (v1, e1, tx1)"
        by (cases res) auto
      from step [OF Suc.prems(1) res] have p1: "P v1" .
      show ?thesis
      proof (cases e1)
        case (Some e)
        with None res Suc.prems p1 show ?thesis by simp
      next
        case None
        note e1 = this
        show ?thesis
        proof (cases "tx_Commit c tx1")
          case (Inr cmt)
          with \<open>newTransaction c n = None\<close> res e1 Suc.prems p1 show ?thesis by simp
        next
          case (Inl ce)
          show ?thesis
          proof (cases "ce = ErrConcurrentTransaction")
            case True
            with Inl \<open>newTransaction c n = None\<close> res e1 Suc.prems(2)
            have "RunInTransaction_from c k (Suc n) f v1 = Inr (v', r, applied)" by simp
            from Suc.IH [OF p1 this] show ?thesis .
          next
            case False
            with Inl \<open>newTransaction c n = None\<close> res e1 Suc.prems p1 show ?thesis by simp
          qed
        qed
      qed
    qed
  qed
qed

lemma BatchCreate_callback_objs:
  "RunInTransaction (Client db) (BatchCreate_callback T db) (pks0, objs) = Inr ((pks, objs'), r, applied)
   \<Longrightarrow> objs' = objs"
proof -
  assume run: "RunInTransaction (Client db) (BatchCreate_callback T db) (pks0, objs)
      = Inr ((pks, objs'), r, applied)"
  have "snd (pks, objs') = objs"
  proof (rule RunInTransaction_from_vars [where P = "\<lambda>v. snd v = objs"
        and f = "BatchCreate_callback T db" and v = "(pks0, objs)"])
    show "snd (pks0, objs) = objs" by simp
    show "RunInTransaction_from (Client db) (attempts (Client db)) 0 (BatchCreate_callback T db)
        (pks0, objs) = Inr ((pks, objs'), r, applied)"
      using run by (simp add: RunInTransaction_def)
  next
    fix v tx v' e tx'
    assume "snd v = objs" and "BatchCreate_callback T db v tx = Inr (v', e, tx')"
    then show "snd v' = objs"
      by (auto simp: BatchCreate_callback_def split: prod.splits dest: BatchCreateTx_objs)
  qed
  then show ?thesis by simp
qed

lemma BatchPut_callback_objs:
  "RunInTransaction (Client db) (BatchPut_callback T db) (pks0, objs) = Inr ((pks, objs'), r, applied)
   \<Longrightarrow> objs' = objs"
proof -
  assume run: "RunInTransaction (Client db) (BatchPut_callback T db) (pks0, objs)
      = Inr ((pks, objs'), r, applied)"
  have "snd (pks, objs') = objs"
  proof (rule RunInTransaction_from_vars [where P = "\<lambda>v. snd v = objs"
        and f = "BatchPut_callback T db" and v = "(pks0, objs)"])
    show "snd (pks0, objs) = objs" by simp
    show "RunInTransaction_from (Client db) (attempts (Client db)) 0 (BatchPut_callback T db)
        (pks0, objs) = Inr ((pks, objs'), r, applied)"
      using run by (simp add: RunInTransaction_def)
  next
    fix v tx v' e tx'
    assume "snd v = objs" and "BatchPut_callback T db v tx = Inr (v', e, tx')"
    then show "snd v' = objs"
      by (auto simp: BatchPut_callback_def split: prod.splits dest: BatchPutTx_objs)
  qed
  then show ?thesis by simp
qed

lemma resolveKeys_result:
  "length keys = length objs \<Longrightarrow>
   resolveKeys T db keys objs loadKeyErr =
     Inr (resolved_entities T db keys objs,
          case resolution_errors T db keys objs of
            [] \<Rightarrow> loadKeyErr
          | e # es \<Rightarrow> Some (last (e # es)))"
proof (induction keys objs arbitrary: loadKeyErr rule: list_induct2)
  case Nil
  show ?case by (simp add: resolved_entities_def resolution_errors_def List.map_filter_simps)
next
  case (Cons key keys obj objs)
  obtain obj' err where r: "ResolveKey T db key obj = (obj', err)"
    by (cases "ResolveKey T db key obj")
  show ?case
  proof (cases err)
    case None
    with r Cons.IH [of loadKeyErr] show ?thesis
      by (simp add: resolved_entities_def resolution_errors_def List.map_filter_simps)
  next
    case (Some e)
    with r Cons.IH [of "Some e"] show ?thesis
      by (simp add: resolved_entities_def resolution_errors_def List.map_filter_simps
          split: list.splits)
  qed
qed

lemma assignKeys_result:
  "length pks = length keys \<Longrightarrow> assignKeys cmt pks keys = Inr (map cmt pks)"
  by (induction pks keys rule: list_induct2) simp_all

text \<open>
  C8. When the transaction of \<^verbatim>\<open>BatchCreate\<close> or \<^verbatim>\<open>BatchPut\<close> commits (and the store
  returned one pending key per entity), the call returns the keys the commit resolves
  the pending keys to, and the entities after their resolution hooks, whether or not a
  hook failed; the error returned is the error of the last entity whose hook failed, and
  \<^verbatim>\<open>nil\<close> when every hook succeeded.
\<close>

theorem batch_resolution_is_best_effort:
  "(RunInTransaction (Client db) (BatchCreate_callback T db) ([], objs)
        = Inr ((pks, objs'), Inr cmt, applied)
      \<and> length pks = length objs
    \<longrightarrow> BatchCreate T db objs =
          Inr (map cmt pks, resolved_entities T db (map cmt pks) objs,
               last_resolution_error T db (map cmt pks) objs))
   \<and> (buildKeys T db objs = (keys, None)
      \<and> RunInTransaction (Client db) (BatchPut_callback T db) ([], objs)
        = Inr ((pks, objs'), Inr cmt, applied)
      \<and> length pks = length objs
    \<longrightarrow> BatchPut T db objs =
          Inr (map cmt pks, resolved_entities T db (map cmt pks) objs,
               last_resolution_error T db (map cmt pks) objs))"
proof (intro conjI impI; elim conjE)
  assume run: "RunInTransaction (Client db) (BatchCreate_callback T db) ([], objs)
        = Inr ((pks, objs'), Inr cmt, applied)"
    and len: "length pks = length objs"
  from run have o: "objs' = objs" by (rule BatchCreate_callback_objs)
  from len have "length (map cmt pks) = length objs" by simp
  from resolveKeys_result [OF this, of T db None] run o
  show "BatchCreate T db objs =
          Inr (map cmt pks, resolved_entities T db (map cmt pks) objs,
               last_resolution_error T db (map cmt pks) objs)"
    by (simp add: BatchCreate_def last_resolution_error_def Let_def)
next
  assume keys: "buildKeys T db objs = (keys, None)"
    and run: "RunInTransaction (Client db) (BatchPut_callback T db) ([], objs)
        = Inr ((pks, objs'), Inr cmt, applied)"
    and len: "length pks = length objs"
  from run have o: "objs' = objs" by (rule BatchPut_callback_objs)
  from keys len have "length pks = length keys" by (simp add: buildKeys_length)
  then have a: "assignKeys cmt pks keys = Inr (map cmt pks)" by (rule assignKeys_result)
  from len have "length (map cmt pks) = length objs" by simp
  from resolveKeys_result [OF this, of T db None] run o keys a
  show "BatchPut T db objs =
          Inr (map cmt pks, resolved_entities T db (map cmt pks) objs,
               last_resolution_error T db (map cmt pks) objs)"
    by (simp add: BatchPut_def last_resolution_error_def)
qed

lemma example_create_transaction:
  "RunInTransaction (Client exampleDB) (BatchCreate_callback exampleT exampleDB)
      ([], [ExampleObj 1 0 0, ExampleObj 2 0 0, ExampleObj 3 0 0])
   = Inr (([Some 0, Some 1, Some 2], [ExampleObj 1 0 0, ExampleObj 2 0 0, ExampleObj 3 0 0]),
          Inr exampleCommit,
          [NewInsert (Some (Key ''Test'' 1 [] None ''ns'')) (ExampleObj 1 0 0),
           NewInsert (Some (Key ''Test'' 2 [] None ''ns'')) (ExampleObj 2 0 0),
           NewInsert (Some (Key ''Test'' 3 [] None ''ns'')) (ExampleObj 3 0 0)])"
  by (simp add: RunInTransaction_def BatchCreate_callback_def BatchCreateTx_def buildKeys_def
      exampleT_def exampleDB_def exampleStore_def numeral_3_eq_3)

lemma example_put_transaction:
  "RunInTransaction (Client exampleDB) (BatchPut_callback exampleT exampleDB)
      ([], [ExampleObj 1 0 0, ExampleObj 2 0 0, ExampleObj 3 0 0])
   = Inr (([Some 0, Some 1, Some 2], [ExampleObj 1 0 0, ExampleObj 2 0 0, ExampleObj 3 0 0]),
          Inr exampleCommit,
          [NewUpsert (Some (Key ''Test'' 1 [] None ''ns'')) (ExampleObj 1 0 0),
           NewUpsert (Some (Key ''Test'' 2 [] None ''ns'')) (ExampleObj 2 0 0),
           NewUpsert (Some (Key ''Test'' 3 [] None ''ns'')) (ExampleObj 3 0 0)])"
  by (simp add: RunInTransaction_def BatchPut_callback_def BatchPutTx_def buildKeys_def
      exampleT_def exampleDB_def exampleStore_def numeral_3_eq_3)

lemma example_keys:
  "buildKeys exampleT exampleDB [ExampleObj 1 0 0, ExampleObj 2 0 0, ExampleObj 3 0 0]
   = ([Some (Key ''Test'' 1 [] None ''ns''), Some (Key ''Test'' 2 [] None ''ns''),
       Some (Key ''Test'' 3 [] None ''ns'')], None)"
  by (simp add: buildKeys_def exampleT_def exampleDB_def)

lemma example_resolution:
  "map exampleCommit [Some 0, Some 1, Some 2]
     = [Some (Key ''Test'' 0 ''a'' None ''ns''), Some (Key ''Test'' 0 ''b'' None ''ns''),
        Some (Key ''Test'' 2 [] None ''ns'')]"
  "resolved_entities exampleT exampleDB
      [Some (Key ''Test'' 0 ''a'' None ''ns''), Some (Key ''Test'' 0 ''b'' None ''ns''),
        Some (Key ''Test'' 2 [] None ''ns'')]
      [ExampleObj 1 0 0, ExampleObj 2 0 0, ExampleObj 3 0 0]
     = [ExampleObj 1 0 0, ExampleObj 2 0 0, ExampleObj 3 0 2]"
  "last_resolution_error exampleT exampleDB
      [Some (Key ''Test'' 0 ''a'' None ''ns''), Some (Key ''Test'' 0 ''b'' None ''ns''),
        Some (Key ''Test'' 2 [] None ''ns'')]
      [ExampleObj 1 0 0, ExampleObj 2 0 0, ExampleObj 3 0 0]
     = Some (OtherError ''b'')"
  by (simp_all add: exampleCommit_def resolved_entities_def last_resolution_error_def
      resolution_errors_def ResolveKey_def exampleT_def List.map_filter_simps)

theorem batch_resolution_is_best_effort_witness:
  "BatchCreate exampleT exampleDB [ExampleObj 1 0 0, ExampleObj 2 0 0, ExampleObj 3 0 0]
     = Inr ([Some (Key ''Test'' 0 ''a'' None ''ns''), Some (Key ''Test'' 0 ''b'' None ''ns''),
             Some (Key ''Test'' 2 [] None ''ns'')],
            [ExampleObj 1 0 0, ExampleObj 2 0 0, ExampleObj 3 0 2],
            Some (OtherError ''b''))
   \<and> BatchPut exampleT exampleDB [ExampleObj 1 0 0, ExampleObj 2 0 0, ExampleObj 3 0 0]
     = Inr ([Some (Key ''Test'' 0 ''a'' None ''ns''), Some (Key ''Test'' 0 ''b'' None ''ns''),
             Some (Key ''Test'' 2 [] None ''ns'')],
            [ExampleObj 1 0 0, ExampleObj 2 0 0, ExampleObj 3 0 2],
            Some (OtherError ''b''))"
proof -
  have len: "length [Some (0::nat), Some 1, Some 2]
      = length [ExampleObj 1 0 0, ExampleObj 2 0 0, ExampleObj 3 0 0]"
    by simp
  from batch_resolution_is_best_effort
    [where T = exampleT and db = exampleDB
      and objs = "[ExampleObj 1 0 0, ExampleObj 2 0 0, ExampleObj 3 0 0]"
      and pks = "[Some 0, Some 1, Some 2]"
      and objs' = "[ExampleObj 1 0 0, ExampleObj 2 0 0, ExampleObj 3 0 0]"
      and cmt = exampleCommit
      and applied = "[NewInsert (Some (Key ''Test'' 1 [] None ''ns'')) (ExampleObj 1 0 0),
           NewInsert (Some (Key ''Test'' 2 [] None ''ns'')) (ExampleObj 2 0 0),
           NewInsert (Some (Key ''Test'' 3 [] None ''ns'')) (ExampleObj 3 0 0)]"]
    example_create_transaction len
  have c: "BatchCreate exampleT exampleDB [ExampleObj 1 0 0, ExampleObj 2 0 0, ExampleObj 3 0 0]
     = Inr ([Some (Key ''Test'' 0 ''a'' None ''ns''), Some (Key ''Test'' 0 ''b'' None ''ns''),
             Some (Key ''Test'' 2 [] None ''ns'')],
            [ExampleObj 1 0 0, ExampleObj 2 0 0, ExampleObj 3 0 2],
            Some (OtherError ''b''))"
    by (simp only: example_resolution simp_thms)
  from batch_resolution_is_best_effort
    [where T = exampleT and db = exampleDB
      and objs = "[ExampleObj 1 0 0, ExampleObj 2 0 0, ExampleObj 3 0 0]"
      and pks = "[Some 0, Some 1, Some 2]"
      and objs' = "[ExampleObj 1 0 0, ExampleObj 2 0 0, ExampleObj 3 0 0]"
      and cmt = exampleCommit
      and keys = "[Some (Key ''Test'' 1 [] None ''ns''), Some (Key ''Test'' 2 [] None ''ns''),
       Some (Key ''Test'' 3 [] None ''ns'')]"
      and applied = "[NewUpsert (Some (Key ''Test'' 1 [] None ''ns'')) (ExampleObj 1 0 0),
           NewUpsert (Some (Key ''Test'' 2 [] None ''ns'')) (ExampleObj 2 0 0),
           NewUpsert (Some (Key ''Test'' 3 [] None ''ns'')) (ExampleObj 3 0 0)]"]
    example_put_transaction example_keys len
  have p: "BatchPut exampleT exampleDB [ExampleObj 1 0 0, ExampleObj 2 0 0, ExampleObj 3 0 0]
     = Inr ([Some (Key ''Test'' 0 ''a'' None ''ns''), Some (Key ''Test'' 0 ''b'' None ''ns''),
             Some (Key ''Test'' 2 [] None ''ns'')],
            [ExampleObj 1 0 0, ExampleObj 2 0 0, ExampleObj 3 0 2],
            Some (OtherError ''b''))"
    by (simp only: example_resolution simp_thms)
  from c p show ?thesis by simp
qed

end
